theory Spec2Isabelle
  imports Complex_Main "HOL-Library.Product_Lexorder" "HOL-Library.AList"
begin

section \<open>The vector database tool (tools/vector\_db\_tool.py)\<close>

text \<open>
  The theory embeds class \<open>VectorDB\<close>: the two tables of its SQLite file, the
  registry lookup \<open>_get_or_create_collection\<close>, \<open>write\<close> and \<open>query\<close>.
  What the Python code takes from libraries is modelled from their documented behaviour:
  \<^item> the sentence encoder is a parameter \<open>encode\<close>, a function from the text to either
    an exception or the embedding (a function, so the same text gets the same vector);
  \<^item> the entries of an embedding are real numbers: the rounding, overflow and underflow
    of numpy's float32 are not modelled, its division by zero is (\<open>np_divide\<close>);
  \<^item> the \<open>metadata\<close> column holds the JSON document that \<open>json.dumps\<close> prints; the model
    keeps the document's syntax tree, not its characters;
  \<^item> every SQLite transaction of a call takes a \<open>fault\<close>: the exception the environment
    raises in it (an I/O error, a locked file), if any. A transaction that raises
    leaves the tables as they were.
\<close>

subsection \<open>Exceptions\<close>

datatype exn = ValueError | TypeError | IntegrityError | OperationalError | RuntimeError

type_synonym fault = "exn option"

subsection \<open>Python values and the json module\<close>

text \<open>
  The values a metadata argument is built from. \<open>PBytes\<close> stands for the objects
  \<open>json.dumps\<close> refuses; dictionaries keep their items in insertion order, with string
  keys as the annotation \<open>Dict[str, Any]\<close> says. Floats are left out.
\<close>

datatype pyval =
    PNone
  | PBool bool
  | PInt int
  | PStr string
  | PBytes string
  | PList "pyval list"
  | PTuple "pyval list"
  | PDict "(string \<times> pyval) list"

text \<open>Python's truth value of an object (\<open>if metadata\<close>).\<close>

fun truthy :: "pyval \<Rightarrow> bool" where
  "truthy PNone = False"
| "truthy (PBool b) = b"
| "truthy (PInt i) = (i \<noteq> 0)"
| "truthy (PStr s) = (s \<noteq> [])"
| "truthy (PBytes s) = (s \<noteq> [])"
| "truthy (PList xs) = (xs \<noteq> [])"
| "truthy (PTuple xs) = (xs \<noteq> [])"
| "truthy (PDict kvs) = (kvs \<noteq> [])"

datatype json =
    JNull
  | JBool bool
  | JInt int
  | JString string
  | JArray "json list"
  | JObject "(string \<times> json) list"

text \<open>
  \<open>json.dumps\<close>: lists and tuples both become arrays, a dictionary becomes an object,
  an object of any other type raises \<open>TypeError\<close>.
\<close>

fun json_dumps :: "pyval \<Rightarrow> exn + json"
  and dumps_list :: "pyval list \<Rightarrow> exn + json list"
  and dumps_items :: "(string \<times> pyval) list \<Rightarrow> exn + (string \<times> json) list" where
  "json_dumps PNone = Inr JNull"
| "json_dumps (PBool b) = Inr (JBool b)"
| "json_dumps (PInt i) = Inr (JInt i)"
| "json_dumps (PStr s) = Inr (JString s)"
| "json_dumps (PBytes s) = Inl TypeError"
| "json_dumps (PList xs) =
     (case dumps_list xs of Inl e \<Rightarrow> Inl e | Inr js \<Rightarrow> Inr (JArray js))"
| "json_dumps (PTuple xs) =
     (case dumps_list xs of Inl e \<Rightarrow> Inl e | Inr js \<Rightarrow> Inr (JArray js))"
| "json_dumps (PDict kvs) =
     (case dumps_items kvs of Inl e \<Rightarrow> Inl e | Inr js \<Rightarrow> Inr (JObject js))"
| "dumps_list [] = Inr []"
| "dumps_list (x # xs) =
     (case json_dumps x of Inl e \<Rightarrow> Inl e
      | Inr j \<Rightarrow> (case dumps_list xs of Inl e \<Rightarrow> Inl e | Inr js \<Rightarrow> Inr (j # js)))"
| "dumps_items [] = Inr []"
| "dumps_items (kv # kvs) =
     (case json_dumps (snd kv) of Inl e \<Rightarrow> Inl e
      | Inr j \<Rightarrow>
          (case dumps_items kvs of Inl e \<Rightarrow> Inl e | Inr js \<Rightarrow> Inr ((fst kv, j) # js)))"

text \<open>
  A dictionary built from a list of pairs, as \<open>dict(pairs)\<close> builds it: a key that
  comes again keeps its place and takes the later value.
\<close>

definition py_dict :: "(string \<times> pyval) list \<Rightarrow> (string \<times> pyval) list" where
  "py_dict pairs = fold (\<lambda>kv d. AList.update (fst kv) (snd kv) d) pairs []"

text \<open>\<open>json.loads\<close>: an array becomes a list, an object a dictionary.\<close>

fun json_loads :: "json \<Rightarrow> pyval"
  and loads_list :: "json list \<Rightarrow> pyval list"
  and loads_items :: "(string \<times> json) list \<Rightarrow> (string \<times> pyval) list" where
  "json_loads JNull = PNone"
| "json_loads (JBool b) = PBool b"
| "json_loads (JInt i) = PInt i"
| "json_loads (JString s) = PStr s"
| "json_loads (JArray js) = PList (loads_list js)"
| "json_loads (JObject kvs) = PDict (py_dict (loads_items kvs))"
| "loads_list [] = []"
| "loads_list (j # js) = json_loads j # loads_list js"
| "loads_items [] = []"
| "loads_items (kv # kvs) = (fst kv, json_loads (snd kv)) # loads_items kvs"


subsection \<open>numpy: dot product, norm, division, argsort\<close>

text \<open>
  The result of a float division: a number, an infinity or NaN. numpy's scalar
  division does not raise on a zero divisor (it warns): \<open>0/0\<close> is NaN and \<open>x/0\<close> is
  an infinity with the sign of \<open>x\<close>.
\<close>

datatype npfloat = Fin real | PosInf | NegInf | NaN

definition np_divide :: "real \<Rightarrow> real \<Rightarrow> npfloat" where
  "np_divide a b =
     (if b \<noteq> 0 then Fin (a / b)
      else if a = 0 then NaN
      else if 0 < a then PosInf
      else NegInf)"

text \<open>\<open>np.dot\<close> of two one-dimensional arrays raises \<open>ValueError\<close> when their lengths differ.\<close>

definition np_dot :: "real list \<Rightarrow> real list \<Rightarrow> exn + real" where
  "np_dot a b =
     (if length a \<noteq> length b then Inl ValueError
      else Inr (sum_list (map (\<lambda>p. fst p * snd p) (zip a b))))"

text \<open>\<open>np.linalg.norm\<close> of a one-dimensional array: \<open>sqrt(dot(x, x))\<close>.\<close>

definition np_norm :: "real list \<Rightarrow> real" where
  "np_norm v = sqrt (sum_list (map (\<lambda>x. x * x) v))"

text \<open>
  The order numpy sorts floats in: \<open>-inf\<close>, the numbers, \<open>+inf\<close>, and NaN last.
\<close>

fun sort_rank :: "npfloat \<Rightarrow> nat \<times> real" where
  "sort_rank NegInf = (0, 0)"
| "sort_rank (Fin r) = (1, r)"
| "sort_rank PosInf = (2, 0)"
| "sort_rank NaN = (3, 0)"

text \<open>
  \<open>np.argsort\<close>: the indices that sort the array ascending. Its default kind is an
  introsort that sorts runs of at most 16 elements by insertion; the model is that
  insertion sort (\<open>sort_key\<close>), which leaves equal scores in index order.
\<close>

definition np_argsort :: "npfloat list \<Rightarrow> nat list" where
  "np_argsort a = sort_key (\<lambda>i. sort_rank (a ! i)) [0..<length a]"

text \<open>
  The slice \<open>xs[:n]\<close>: the first \<open>n\<close> elements, and for a negative \<open>n\<close> all but the
  last \<open>-n\<close>.
\<close>

definition slice_upto :: "int \<Rightarrow> 'a list \<Rightarrow> 'a list" where
  "slice_upto n xs =
     (if 0 \<le> n then take (nat n) xs else take (nat (int (length xs) + n)) xs)"

subsection \<open>The tables\<close>

text \<open>
  \<open>collections(id INTEGER PRIMARY KEY, name TEXT UNIQUE)\<close> and
  \<open>documents(id INTEGER PRIMARY KEY, collection_id, text, metadata, embedding)\<close>,
  each a list of rows in insertion order.
\<close>

record collection_row =
  col_id :: int
  col_name :: string

record document_row =
  doc_id :: int
  doc_collection_id :: int
  doc_text :: string
  doc_metadata :: "json option"
  doc_embedding :: "real list"

record store =
  collections :: "collection_row list"
  documents :: "document_row list"

definition empty_store :: store where
  "empty_store = \<lparr>collections = [], documents = []\<rparr>"

text \<open>
  The id SQLite gives a new row of an \<open>INTEGER PRIMARY KEY\<close> table (\<open>lastrowid\<close>):
  one more than the largest id in the table, 1 in an empty table.
\<close>

definition next_rowid :: "int list \<Rightarrow> int" where
  "next_rowid ids = (case ids of [] \<Rightarrow> 1 | i # rest \<Rightarrow> fold max rest i + 1)"

text \<open>\<open>SELECT id FROM collections WHERE name = ?\<close> and \<open>fetchone()\<close>.\<close>

definition select_collection_id :: "string \<Rightarrow> store \<Rightarrow> int option" where
  "select_collection_id n s =
     map_option col_id (find (\<lambda>r. col_name r = n) (collections s))"

text \<open>
  \<open>INSERT INTO collections (name) VALUES (?)\<close>: the \<open>UNIQUE\<close> constraint of the column
  makes SQLite raise \<open>IntegrityError\<close> when a row has the name already.
\<close>

definition insert_collection :: "string \<Rightarrow> store \<Rightarrow> exn + (int \<times> store)" where
  "insert_collection n s =
     (if n \<in> set (map col_name (collections s)) then Inl IntegrityError
      else
        (let i = next_rowid (map col_id (collections s))
         in Inr (i, s\<lparr>collections := collections s @ [\<lparr>col_id = i, col_name = n\<rparr>]\<rparr>)))"

text \<open>\<open>SELECT id, text, metadata, embedding FROM documents WHERE collection_id = ?\<close>.\<close>

definition select_documents :: "int \<Rightarrow> store \<Rightarrow> document_row list" where
  "select_documents cid s = filter (\<lambda>d. doc_collection_id d = cid) (documents s)"

text \<open>The \<open>INSERT INTO documents\<close> transaction of \<open>write\<close> (lines 131 to 141).\<close>

definition insert_document ::
  "fault \<Rightarrow> int \<Rightarrow> string \<Rightarrow> json option \<Rightarrow> real list \<Rightarrow> store \<Rightarrow> exn + (int \<times> store)" where
  "insert_document flt cid txt metadata_str embedding s =
     (case flt of
        Some e \<Rightarrow> Inl e
      | None \<Rightarrow>
          (let i = next_rowid (map doc_id (documents s))
           in Inr (i, s\<lparr>documents := documents s @
                 [\<lparr>doc_id = i, doc_collection_id = cid, doc_text = txt,
                   doc_metadata = metadata_str, doc_embedding = embedding\<rparr>]\<rparr>)))"

subsection \<open>The registry: \_get\_or\_create\_collection\<close>

definition get_or_create_collection :: "fault \<Rightarrow> string \<Rightarrow> store \<Rightarrow> exn + (int \<times> store)" where
  "get_or_create_collection flt collection_name s =
     (case flt of
        Some e \<Rightarrow> Inl e
      | None \<Rightarrow>
          (case select_collection_id collection_name s of
             Some collection_id \<Rightarrow> Inr (collection_id, s)
           | None \<Rightarrow> insert_collection collection_name s))"

subsection \<open>The envelopes\<close>

text \<open>
  The dictionaries \<open>write\<close> and \<open>query\<close> hand to their last \<open>json.dumps\<close>:
  \<open>WriteSuccess doc_id collection\<close> has status \<open>success\<close>, the id and the message
  \<open>Successfully wrote document {doc_id} to collection '{collection}'\<close>;
  \<open>QuerySuccess results\<close> has status \<open>success\<close> and the results; \<open>Failure m\<close> has
  status \<open>error\<close> and the message \<open>m\<close>:
  \<open>Collection '{collection}' not found\<close>, \<open>Error querying database: {e}\<close> or
  \<open>Error writing to database: {e}\<close>.
\<close>

record hit =
  hit_id :: int
  hit_text :: string
  hit_metadata :: pyval
  hit_similarity :: npfloat

datatype message = CollectionNotFound string | ErrorQuerying exn | ErrorWriting exn

datatype envelope = WriteSuccess int string | QuerySuccess "hit list" | Failure message

fun is_error :: "envelope \<Rightarrow> bool" where
  "is_error (Failure m) = True"
| "is_error (WriteSuccess i c) = False"
| "is_error (QuerySuccess hs) = False"

subsection \<open>write\<close>

text \<open>
  \<open>VectorDB.write\<close> (lines 115 to 156), in the order of the code: encode the text,
  serialize the metadata if it is truthy, get or create the collection (a transaction
  of its own, committed before the next one starts), insert the document. Every
  exception ends in the error envelope of the \<open>except\<close> clause.
\<close>

definition metadata_to_str :: "pyval \<Rightarrow> exn + json option" where
  "metadata_to_str metadata =
     (if truthy metadata
      then (case json_dumps metadata of Inl e \<Rightarrow> Inl e | Inr j \<Rightarrow> Inr (Some j))
      else Inr None)"

definition write_doc ::
  "(string \<Rightarrow> exn + real list) \<Rightarrow> fault \<Rightarrow> fault \<Rightarrow>
     string \<Rightarrow> string \<Rightarrow> pyval \<Rightarrow> store \<Rightarrow> envelope \<times> store" where
  "write_doc encode registry_fault insert_fault collection txt metadata s =
     (case encode txt of
        Inl e \<Rightarrow> (Failure (ErrorWriting e), s)
      | Inr embedding \<Rightarrow>
          (case metadata_to_str metadata of
             Inl e \<Rightarrow> (Failure (ErrorWriting e), s)
           | Inr metadata_str \<Rightarrow>
               (case get_or_create_collection registry_fault collection s of
                  Inl e \<Rightarrow> (Failure (ErrorWriting e), s)
                | Inr (collection_id, s1) \<Rightarrow>
                    (case insert_document insert_fault collection_id txt metadata_str
                            embedding s1 of
                       Inl e \<Rightarrow> (Failure (ErrorWriting e), s1)
                     | Inr (new_id, s2) \<Rightarrow> (WriteSuccess new_id collection, s2)))))"

subsection \<open>query\<close>

text \<open>The quotient of lines 195 to 197: no test of the divisor comes before it.\<close>

definition similarity :: "real list \<Rightarrow> real list \<Rightarrow> exn + npfloat" where
  "similarity query_embedding embedding =
     (case np_dot query_embedding embedding of
        Inl e \<Rightarrow> Inl e
      | Inr d \<Rightarrow> Inr (np_divide d (np_norm query_embedding * np_norm embedding)))"

text \<open>The loop of lines 193 to 205 over the fetched rows.\<close>

fun score_documents :: "real list \<Rightarrow> document_row list \<Rightarrow> exn + hit list" where
  "score_documents q [] = Inr []"
| "score_documents q (d # ds) =
     (case similarity q (doc_embedding d) of
        Inl e \<Rightarrow> Inl e
      | Inr sim \<Rightarrow>
          (case score_documents q ds of
             Inl e \<Rightarrow> Inl e
           | Inr hs \<Rightarrow>
               Inr (\<lparr>hit_id = doc_id d, hit_text = doc_text d,
                     hit_metadata =
                       (case doc_metadata d of None \<Rightarrow> PNone | Some j \<Rightarrow> json_loads j),
                     hit_similarity = sim\<rparr> # hs)))"

text \<open>Lines 208 and 209: \<open>np.argsort(similarities)[::-1][:n_results]\<close>.\<close>

definition sorted_indices :: "npfloat list \<Rightarrow> int \<Rightarrow> nat list" where
  "sorted_indices similarities n_results = slice_upto n_results (rev (np_argsort similarities))"

definition top_results :: "hit list \<Rightarrow> int \<Rightarrow> hit list" where
  "top_results docs n_results =
     map (\<lambda>i. docs ! i) (sorted_indices (map hit_similarity docs) n_results)"

text \<open>
  \<open>VectorDB.query\<close> (lines 158 to 225). The query text is encoded first; the lookup of
  the collection and the scan are reads of one connection, and \<open>query\<close> writes nothing:
  the store it returns is the one it got.
\<close>

definition query ::
  "(string \<Rightarrow> exn + real list) \<Rightarrow> fault \<Rightarrow> string \<Rightarrow> string \<Rightarrow> int \<Rightarrow> store \<Rightarrow>
     envelope \<times> store" where
  "query encode read_fault collection query_text n_results s =
     (case encode query_text of
        Inl e \<Rightarrow> (Failure (ErrorQuerying e), s)
      | Inr query_embedding \<Rightarrow>
          (case read_fault of
             Some e \<Rightarrow> (Failure (ErrorQuerying e), s)
           | None \<Rightarrow>
               (case select_collection_id collection s of
                  None \<Rightarrow> (Failure (CollectionNotFound collection), s)
                | Some collection_id \<Rightarrow>
                    (case score_documents query_embedding
                            (select_documents collection_id s) of
                       Inl e \<Rightarrow> (Failure (ErrorQuerying e), s)
                     | Inr docs \<Rightarrow> (QuerySuccess (top_results docs n_results), s)))))"

subsection \<open>The collection a write resolves\<close>

text \<open>The collection id that \<open>write\<close> files the document under.\<close>

definition resolved_id :: "string \<Rightarrow> store \<Rightarrow> int" where
  "resolved_id collection s =
     (case select_collection_id collection s of
        Some i \<Rightarrow> i
      | None \<Rightarrow> next_rowid (map col_id (collections s)))"

subsection \<open>Two callers of \_get\_or\_create\_collection\<close>

text \<open>
  Separate processes share the database file and nothing else, so two calls interleave
  at the statements they send to SQLite. A call is at its \<open>SELECT\<close> (line 96), at its
  \<open>INSERT\<close> (line 103, reached when the \<open>SELECT\<close> found no row; the insert and its commit
  are one step, since SQLite lets no other writer in between), or it is over: it returned
  an id or raised. No fault of the environment is considered here.
\<close>

datatype call_state = AtSelect | AtInsert | Returned int | Raised exn

definition call_step :: "string \<Rightarrow> call_state \<Rightarrow> store \<Rightarrow> call_state \<times> store" where
  "call_step collection_name pc s =
     (case pc of
        AtSelect \<Rightarrow>
          (case select_collection_id collection_name s of
             Some collection_id \<Rightarrow> (Returned collection_id, s)
           | None \<Rightarrow> (AtInsert, s))
      | AtInsert \<Rightarrow>
          (case insert_collection collection_name s of
             Inl e \<Rightarrow> (Raised e, s)
           | Inr (collection_id, s') \<Rightarrow> (Returned collection_id, s'))
      | Returned i \<Rightarrow> (Returned i, s)
      | Raised e \<Rightarrow> (Raised e, s))"

text \<open>
  A schedule says which caller moves next (\<open>True\<close>: the first, \<open>False\<close>: the second); both
  callers pass the same name.
\<close>

fun run_schedule ::
  "string \<Rightarrow> bool list \<Rightarrow> call_state \<times> call_state \<times> store \<Rightarrow> call_state \<times> call_state \<times> store" where
  "run_schedule collection_name [] cfg = cfg"
| "run_schedule collection_name (first # rest) (pc1, pc2, s) =
     (if first
      then (case call_step collection_name pc1 s of
              (pc1', s') \<Rightarrow> run_schedule collection_name rest (pc1', pc2, s'))
      else (case call_step collection_name pc2 s of
              (pc2', s') \<Rightarrow> run_schedule collection_name rest (pc1, pc2', s')))"

subsection \<open>Stores used as examples\<close>


text \<open>A collection with two documents of the same embedding, \<open>first\<close> written before \<open>second\<close>.\<close>

definition tie_store :: store where
  "tie_store =
     \<lparr>collections = [\<lparr>col_id = 1, col_name = ''c''\<rparr>],
      documents =
        [\<lparr>doc_id = 1, doc_collection_id = 1, doc_text = ''first'',
          doc_metadata = None, doc_embedding = [1, 0]\<rparr>,
         \<lparr>doc_id = 2, doc_collection_id = 1, doc_text = ''second'',
          doc_metadata = None, doc_embedding = [1, 0]\<rparr>]\<rparr>"

section \<open>Properties\<close>

subsection \<open>Division by a zero norm\<close>











subsection \<open>The order of the results\<close>




lemma set_np_argsort: "set (np_argsort a) = {0..<length a}"
  by (simp add: np_argsort_def)


lemma set_slice_upto: "set (slice_upto n xs) \<subseteq> set xs"
  by (auto simp: slice_upto_def dest: in_set_takeD)


lemma set_sorted_indices: "set (sorted_indices a n) \<subseteq> {0..<length a}"
  using set_slice_upto [of n "rev (np_argsort a)"] by (simp add: sorted_indices_def set_np_argsort)




lemma fold_max_ge: "(i::int) \<le> fold max xs i \<and> (\<forall>x \<in> set xs. x \<le> fold max xs i)"
proof (induction xs arbitrary: i)
  case Nil
  then show ?case by simp
next
  case (Cons a xs)
  have "max a i \<le> fold max xs (max a i)" and "\<forall>x \<in> set xs. x \<le> fold max xs (max a i)"
    using Cons.IH [of "max a i"] by simp_all
  then show ?case by auto
qed

lemma next_rowid_greater: "x \<in> set ids \<Longrightarrow> x < next_rowid ids"
proof (cases ids)
  case Nil
  assume "x \<in> set ids"
  with Nil show ?thesis by simp
next
  case (Cons i rest)
  assume "x \<in> set ids"
  with Cons fold_max_ge [of i rest] have "x \<le> fold max rest i" by auto
  with Cons show ?thesis by (simp add: next_rowid_def)
qed

lemma sorted_wrt_less_snoc:
  "sorted_wrt (<) (xs :: int list) \<Longrightarrow> \<forall>x \<in> set xs. x < y \<Longrightarrow> sorted_wrt (<) (xs @ [y])"
  by (simp add: sorted_wrt_append)

lemma get_or_create_documents:
  "get_or_create_collection flt c s = Inr (i, s1) \<Longrightarrow> documents s1 = documents s"
  by (auto simp: get_or_create_collection_def insert_collection_def Let_def
      split: option.splits if_splits)

lemma insert_document_ids:
  assumes "insert_document flt cid txt m v s = Inr (i, s2)"
    and "sorted_wrt (<) (map doc_id (documents s))"
  shows "sorted_wrt (<) (map doc_id (documents s2))"
proof -
  from assms(1) have s2: "map doc_id (documents s2) =
      map doc_id (documents s) @ [next_rowid (map doc_id (documents s))]"
    by (auto simp: insert_document_def Let_def split: option.splits)
  show ?thesis
    unfolding s2 using assms(2) next_rowid_greater [of _ "map doc_id (documents s)"]
    by (intro sorted_wrt_less_snoc) auto
qed

lemma write_doc_ids_increasing:
  assumes "sorted_wrt (<) (map doc_id (documents s))"
  shows "sorted_wrt (<) (map doc_id (documents (snd (write_doc encode f1 f2 c t m s))))"
proof (cases "write_doc encode f1 f2 c t m s")
  case (Pair env s')
  show ?thesis
  proof (cases "documents s' = documents s")
    case True
    with Pair assms show ?thesis by simp
  next
    case False
    with Pair obtain v ms cid s1 i where
      g: "get_or_create_collection f1 c s = Inr (cid, s1)" and
      d: "insert_document f2 cid t ms v s1 = Inr (i, s')"
      by (auto simp: write_doc_def split: sum.splits prod.splits dest: get_or_create_documents)
    from assms get_or_create_documents [OF g] have "sorted_wrt (<) (map doc_id (documents s1))"
      by simp
    from insert_document_ids [OF d this] Pair show ?thesis by simp
  qed
qed


lemma query_success_top_results:
  assumes "query encode flt c t n s = (QuerySuccess hits, s')"
  shows "\<exists>q cid docs. score_documents q (select_documents cid s) = Inr docs
           \<and> hits = top_results docs n"
  using assms
  by (auto simp: query_def split: sum.splits option.splits)






subsection \<open>Truncation to n\_results\<close>

lemma length_np_argsort: "length (np_argsort a) = length a"
  by (simp add: np_argsort_def)

lemma top_results_zero: "top_results docs 0 = []"
  by (simp add: top_results_def sorted_indices_def slice_upto_def)

lemma top_results_all:
  "int (length docs) \<le> n \<Longrightarrow> length (top_results docs n) = length docs"
  by (simp add: top_results_def sorted_indices_def slice_upto_def length_np_argsort)

lemma top_results_negative:
  "n < 0 \<Longrightarrow> length (top_results docs n) = nat (int (length docs) + n)"
  by (simp add: top_results_def sorted_indices_def slice_upto_def length_np_argsort)

text \<open>
  C3 (the code at a negative \<open>n_results\<close>). The slice \<open>[:n_results]\<close> of line 208 with
  \<open>n_results = -1\<close> drops the last index only: on the collection of two documents the
  query returns one result, not the empty list.
\<close>

theorem negative_n_results_not_empty:
  "fst (query (\<lambda>t. Inr [1, 0]) None ''c'' ''q'' (- 1) tie_store) =
     QuerySuccess
       [\<lparr>hit_id = 2, hit_text = ''second'', hit_metadata = PNone, hit_similarity = Fin 1\<rparr>]"
  by (simp add: query_def tie_store_def select_collection_id_def select_documents_def
      similarity_def np_dot_def np_norm_def np_divide_def top_results_def sorted_indices_def
      np_argsort_def slice_upto_def upt_rec)

subsection \<open>write validates nothing\<close>

lemma select_collection_id_None:
  "select_collection_id n s = None \<longleftrightarrow> n \<notin> set (map col_name (collections s))"
  by (auto simp: select_collection_id_def find_None_iff)

lemma select_collection_id_Some:
  "select_collection_id n s = Some i \<Longrightarrow> \<exists>r \<in> set (collections s). col_name r = n \<and> col_id r = i"
  by (auto simp: select_collection_id_def find_Some_iff)

lemma get_or_create_no_fault:
  "get_or_create_collection None c s =
     Inr (resolved_id c s,
          case select_collection_id c s of
            Some i \<Rightarrow> s
          | None \<Rightarrow> s\<lparr>collections := collections s @
                [\<lparr>col_id = next_rowid (map col_id (collections s)), col_name = c\<rparr>]\<rparr>)"
proof (cases "select_collection_id c s")
  case None
  then have "c \<notin> set (map col_name (collections s))"
    by (simp add: select_collection_id_None)
  with None show ?thesis
    by (simp add: get_or_create_collection_def resolved_id_def insert_collection_def Let_def)
next
  case (Some i)
  then show ?thesis
    by (simp add: get_or_create_collection_def resolved_id_def)
qed




subsection \<open>An unknown collection\<close>

text \<open>
  C5. A query that names a collection with no row in the registry ends in an error
  envelope, whatever the encoder and the connection do, and returns the store as it
  was. When the encoder returns a vector and the read does not fail, the message is
  \<open>Collection '{collection}' not found\<close>.
\<close>

theorem query_unknown_collection:
  assumes "select_collection_id collection s = None"
  shows "is_error (fst (query encode flt collection query_text n s))
       \<and> (\<forall>hits. fst (query encode flt collection query_text n s) \<noteq> QuerySuccess hits)
       \<and> snd (query encode flt collection query_text n s) = s
       \<and> (\<forall>v. encode query_text = Inr v \<and> flt = None \<longrightarrow>
            fst (query encode flt collection query_text n s) =
              Failure (CollectionNotFound collection))"
  using assms by (auto simp: query_def split: sum.splits option.splits)

theorem query_unknown_collection_witness:
  "select_collection_id ''missingcol'' tie_store = None
   \<and> query (\<lambda>t. Inr [1, 0]) None ''missingcol'' ''x'' 5 tie_store =
       (Failure (CollectionNotFound ''missingcol''), tie_store)"
proof -
  have none: "select_collection_id ''missingcol'' tie_store = None"
    by (simp add: select_collection_id_def tie_store_def)
  from query_unknown_collection [OF none, of "\<lambda>t. Inr [1, 0]" None "''x''" 5]
  show ?thesis using none by (auto simp: prod_eq_iff)
qed

subsection \<open>A query after a write\<close>

lemma find_snoc:
  "find P (xs @ [x]) = (case find P xs of None \<Rightarrow> (if P x then Some x else None) | Some y \<Rightarrow> Some y)"
  by (induction xs) auto

lemma select_after_get_or_create:
  assumes "get_or_create_collection flt c s = Inr (i, s1)"
  shows "select_collection_id c s1 = Some i"
proof (cases "select_collection_id c s")
  case None
  then have notin: "c \<notin> set (map col_name (collections s))"
    by (simp add: select_collection_id_None)
  have "find (\<lambda>r. col_name r = c) (collections s) = None"
    using None by (simp add: select_collection_id_def)
  with assms None notin show ?thesis
    by (auto simp: get_or_create_collection_def insert_collection_def Let_def
        select_collection_id_def find_snoc split: option.splits)
next
  case (Some j)
  with assms show ?thesis
    by (auto simp: get_or_create_collection_def split: option.splits)
qed



lemma top_results_single: "1 \<le> n \<Longrightarrow> top_results [h] n = [h]"
  by (simp add: top_results_def sorted_indices_def np_argsort_def slice_upto_def)



subsection \<open>A failed insertion after the collection was created\<close>

text \<open>
  C8. When \<open>write\<close> names a collection that has no row yet, the registry transaction
  creates and commits the row; when the insertion of the document then raises, \<open>write\<close>
  returns the error envelope, and the store it leaves holds the new collection row and no
  new document: nothing undoes the creation.
\<close>

theorem write_doc_orphan_collection:
  assumes "encode txt = Inr v" and "metadata_to_str metadata = Inr ms"
    and "select_collection_id collection s = None"
  shows "write_doc encode None (Some e) collection txt metadata s =
           (Failure (ErrorWriting e),
            s\<lparr>collections := collections s @
                 [\<lparr>col_id = next_rowid (map col_id (collections s)), col_name = collection\<rparr>]\<rparr>)
       \<and> select_collection_id collection
             (snd (write_doc encode None (Some e) collection txt metadata s)) =
           Some (next_rowid (map col_id (collections s)))
       \<and> documents (snd (write_doc encode None (Some e) collection txt metadata s)) =
           documents s"
proof -
  let ?s0 = "s\<lparr>collections := collections s @
       [\<lparr>col_id = next_rowid (map col_id (collections s)), col_name = collection\<rparr>]\<rparr>"
  have g: "get_or_create_collection None collection s =
      Inr (next_rowid (map col_id (collections s)), ?s0)"
    using assms(3) by (simp add: get_or_create_no_fault resolved_id_def)
  have w: "write_doc encode None (Some e) collection txt metadata s =
      (Failure (ErrorWriting e), ?s0)"
    using assms(1,2) g by (simp add: write_doc_def insert_document_def)
  show ?thesis
    using select_after_get_or_create [OF g] by (simp add: w)
qed

theorem write_doc_orphan_collection_witness:
  "select_collection_id ''newcol'' empty_store = None
   \<and> write_doc (\<lambda>t. Inr [1, 0]) None (Some OperationalError) ''newcol'' ''a'' PNone empty_store =
       (Failure (ErrorWriting OperationalError),
        \<lparr>collections = [\<lparr>col_id = 1, col_name = ''newcol''\<rparr>], documents = []\<rparr>)"
proof -
  have a: "select_collection_id ''newcol'' empty_store = None"
    by (simp add: select_collection_id_def empty_store_def)
  have b: "metadata_to_str PNone = Inr None" by (simp add: metadata_to_str_def)
  from write_doc_orphan_collection [of "\<lambda>t. Inr [1, 0]" "''a''" "[1, 0]" PNone None
      "''newcol''" empty_store OperationalError, OF refl b a]
  show ?thesis using a by (simp add: empty_store_def next_rowid_def)
qed

subsection \<open>Metadata\<close>

lemma top_results_subset: "set (top_results docs n) \<subseteq> set docs"
  using set_sorted_indices [of "map hit_similarity docs" n]
  by (auto simp: top_results_def)

lemma score_documents_hit:
  "score_documents q rows = Inr docs \<Longrightarrow> h \<in> set docs \<Longrightarrow>
     \<exists>d \<in> set rows. hit_id h = doc_id d \<and> hit_text h = doc_text d
       \<and> hit_metadata h = (case doc_metadata d of None \<Rightarrow> PNone | Some j \<Rightarrow> json_loads j)"
proof (induction rows arbitrary: docs)
  case Nil
  then show ?case by simp
next
  case (Cons d rows)
  then show ?case by (auto split: sum.splits)
qed

lemma query_hit_row:
  assumes "query encode flt c t n s = (QuerySuccess hits, s')" and "h \<in> set hits"
  shows "\<exists>d \<in> set (documents s). hit_id h = doc_id d \<and> hit_text h = doc_text d
       \<and> hit_metadata h = (case doc_metadata d of None \<Rightarrow> PNone | Some j \<Rightarrow> json_loads j)"
proof -
  from query_success_top_results [OF assms(1)] obtain qv cid docs where
    sc: "score_documents qv (select_documents cid s) = Inr docs" and hs: "hits = top_results docs n"
    by blast
  from assms(2) hs top_results_subset [of docs n] have "h \<in> set docs" by auto
  from score_documents_hit [OF sc this] show ?thesis
    by (auto simp: select_documents_def)
qed

lemma write_doc_success_row:
  assumes "write_doc encode f1 f2 c txt metadata s = (WriteSuccess i c', s1)"
  shows "\<exists>v ms cid. metadata_to_str metadata = Inr ms
       \<and> i = next_rowid (map doc_id (documents s))
       \<and> documents s1 = documents s @
           [\<lparr>doc_id = i, doc_collection_id = cid, doc_text = txt, doc_metadata = ms,
             doc_embedding = v\<rparr>]"
  using assms
  by (auto simp: write_doc_def insert_document_def Let_def
      split: sum.splits prod.splits option.splits dest: get_or_create_documents)

lemma written_hit_metadata:
  assumes w: "write_doc encode f1 f2 c txt metadata s = (WriteSuccess i c', s1)"
    and q: "query encode' flt c2 t n s1 = (QuerySuccess hits, s2)"
    and h: "h \<in> set hits" "hit_id h = i"
  shows "\<exists>ms. metadata_to_str metadata = Inr ms
       \<and> hit_metadata h = (case ms of None \<Rightarrow> PNone | Some j \<Rightarrow> json_loads j)"
proof -
  from write_doc_success_row [OF w] obtain v ms cid where
    ms: "metadata_to_str metadata = Inr ms" and i: "i = next_rowid (map doc_id (documents s))"
    and docs: "documents s1 = documents s @
           [\<lparr>doc_id = i, doc_collection_id = cid, doc_text = txt, doc_metadata = ms,
             doc_embedding = v\<rparr>]"
    by blast
  from query_hit_row [OF q h(1)] obtain d where
    d: "d \<in> set (documents s1)" "hit_id h = doc_id d"
    "hit_metadata h = (case doc_metadata d of None \<Rightarrow> PNone | Some j \<Rightarrow> json_loads j)"
    by blast
  have "d \<notin> set (documents s)"
  proof
    assume "d \<in> set (documents s)"
    then have "doc_id d \<in> set (map doc_id (documents s))" by simp
    from next_rowid_greater [OF this] d(2) h(2) i show False by simp
  qed
  with d(1) docs have "doc_metadata d = ms" by auto
  with d(3) ms show ?thesis by simp
qed

text \<open>
  C10. A metadata argument that is not truthy (\<open>None\<close>, the empty dictionary, any empty or
  zero value) is not serialized: the row is stored without metadata, and a query that
  returns the written document gives its metadata as \<open>None\<close> (\<open>null\<close> in the envelope), not
  as the value that was passed.
\<close>

theorem falsy_metadata_stored_as_null:
  assumes "\<not> truthy metadata"
    and "write_doc encode f1 f2 c txt metadata s = (WriteSuccess i c', s1)"
    and "query encode' flt c2 t n s1 = (QuerySuccess hits, s2)"
    and "h \<in> set hits" and "hit_id h = i"
  shows "metadata_to_str metadata = Inr None \<and> hit_metadata h = PNone"
  using written_hit_metadata [OF assms(2-5)] assms(1)
  by (auto simp: metadata_to_str_def)

lemma write_example:
  "write_doc (\<lambda>t. Inr [1, 0]) None None ''c'' ''a'' metadata empty_store =
     (case metadata_to_str metadata of
        Inl e \<Rightarrow> (Failure (ErrorWriting e), empty_store)
      | Inr ms \<Rightarrow>
          (WriteSuccess 1 ''c'',
           \<lparr>collections = [\<lparr>col_id = 1, col_name = ''c''\<rparr>],
            documents = [\<lparr>doc_id = 1, doc_collection_id = 1, doc_text = ''a'',
                          doc_metadata = ms, doc_embedding = [1, 0]\<rparr>]\<rparr>))"
  by (simp add: write_doc_def get_or_create_collection_def select_collection_id_def
      insert_collection_def insert_document_def next_rowid_def empty_store_def
      split: sum.splits)

lemma query_example:
  "query (\<lambda>t. Inr [1, 0]) None ''c'' ''a'' 5
     \<lparr>collections = [\<lparr>col_id = 1, col_name = ''c''\<rparr>],
      documents = [\<lparr>doc_id = 1, doc_collection_id = 1, doc_text = ''a'',
                    doc_metadata = ms, doc_embedding = [1, 0]\<rparr>]\<rparr> =
     (QuerySuccess
        [\<lparr>hit_id = 1, hit_text = ''a'',
          hit_metadata = (case ms of None \<Rightarrow> PNone | Some j \<Rightarrow> json_loads j),
          hit_similarity = Fin 1\<rparr>],
      \<lparr>collections = [\<lparr>col_id = 1, col_name = ''c''\<rparr>],
       documents = [\<lparr>doc_id = 1, doc_collection_id = 1, doc_text = ''a'',
                     doc_metadata = ms, doc_embedding = [1, 0]\<rparr>]\<rparr>)"
  by (simp add: query_def select_collection_id_def select_documents_def
      similarity_def np_dot_def np_norm_def np_divide_def top_results_single)

theorem falsy_metadata_stored_as_null_witness:
  "\<not> truthy (PDict [])
   \<and> fst (query (\<lambda>t. Inr [1, 0]) None ''c'' ''a'' 5
        (snd (write_doc (\<lambda>t. Inr [1, 0]) None None ''c'' ''a'' (PDict []) empty_store))) =
       QuerySuccess
         [\<lparr>hit_id = 1, hit_text = ''a'', hit_metadata = PNone, hit_similarity = Fin 1\<rparr>]"
proof -
  let ?s1 = "\<lparr>collections = [\<lparr>col_id = 1, col_name = ''c''\<rparr>],
      documents = [\<lparr>doc_id = 1, doc_collection_id = 1, doc_text = ''a'',
                    doc_metadata = None, doc_embedding = [1, 0]\<rparr>]\<rparr>"
  let ?h = "\<lparr>hit_id = 1, hit_text = ''a'', hit_metadata = PNone, hit_similarity = Fin 1\<rparr>"
  have a: "\<not> truthy (PDict [])" by simp
  have w: "write_doc (\<lambda>t. Inr [1, 0]) None None ''c'' ''a'' (PDict []) empty_store =
      (WriteSuccess 1 ''c'', ?s1)"
    by (simp add: write_example metadata_to_str_def)
  have q: "query (\<lambda>t. Inr [1, 0]) None ''c'' ''a'' 5 ?s1 = (QuerySuccess [?h], ?s1)"
    by (simp add: query_example)
  have "hit_metadata ?h = PNone"
    using falsy_metadata_stored_as_null [OF a w q, of ?h] by simp
  then show ?thesis using a by (simp add: w q)
qed









subsection \<open>The race of two callers on a new name\<close>

text \<open>One caller on its own takes the two steps of the sequential function.\<close>

lemma call_steps_sequential:
  "run_schedule n [True, True] (AtSelect, pc2, s) =
     (case get_or_create_collection None n s of
        Inl e \<Rightarrow> (Raised e, pc2, s)
      | Inr (i, s') \<Rightarrow> (Returned i, pc2, s'))"
proof (cases "select_collection_id n s")
  case None
  then have "n \<notin> set (map col_name (collections s))"
    by (simp add: select_collection_id_None)
  with None show ?thesis
    by (simp add: call_step_def get_or_create_collection_def insert_collection_def Let_def)
next
  case (Some i)
  then show ?thesis
    by (simp add: call_step_def get_or_create_collection_def)
qed

lemma call_step_names:
  assumes "call_step n pc s = (pc', s')" and "distinct (map col_name (collections s))"
  shows "distinct (map col_name (collections s'))"
  using assms
  by (auto simp: call_step_def insert_collection_def Let_def
      split: call_state.splits option.splits if_splits)

lemma run_schedule_names:
  "distinct (map col_name (collections (snd (snd cfg)))) \<Longrightarrow>
     distinct (map col_name (collections (snd (snd (run_schedule n sched cfg)))))"
proof (induction sched arbitrary: cfg)
  case Nil
  then show ?case by simp
next
  case (Cons first rest)
  obtain pc1 pc2 s where cfg: "cfg = (pc1, pc2, s)" by (cases cfg) auto
  show ?case
  proof (cases first)
    case True
    obtain pc1' s' where st: "call_step n pc1 s = (pc1', s')" by (cases "call_step n pc1 s") auto
    have "distinct (map col_name (collections s'))"
      using call_step_names [OF st] Cons.prems cfg by simp
    then show ?thesis
      using Cons.IH [of "(pc1', pc2, s')"] True st cfg by simp
  next
    case False
    obtain pc2' s' where st: "call_step n pc2 s = (pc2', s')" by (cases "call_step n pc2 s") auto
    have "distinct (map col_name (collections s'))"
      using call_step_names [OF st] Cons.prems cfg by simp
    then show ?thesis
      using Cons.IH [of "(pc1, pc2', s')"] False st cfg by simp
  qed
qed

lemma at_most_one_row:
  "distinct (map col_name rows) \<Longrightarrow> length (filter (\<lambda>r. col_name r = n) rows) \<le> 1"
proof (induction rows)
  case Nil
  then show ?case by simp
next
  case (Cons r rows)
  show ?case
  proof (cases "col_name r = n")
    case True
    have "col_name r \<notin> col_name ` set rows" using Cons.prems by simp
    with True have "\<forall>x \<in> set rows. col_name x \<noteq> n" by blast
    then have "filter (\<lambda>r. col_name r = n) rows = []"
      by (simp add: filter_empty_conv)
    with True show ?thesis by simp
  next
    case False
    with Cons show ?thesis by simp
  qed
qed

lemma racing_schedule:
  assumes "select_collection_id n s = None"
  shows "run_schedule n [True, False, True, False] (AtSelect, AtSelect, s) =
     (Returned (next_rowid (map col_id (collections s))), Raised IntegrityError,
      s\<lparr>collections := collections s @
           [\<lparr>col_id = next_rowid (map col_id (collections s)), col_name = n\<rparr>]\<rparr>)"
proof -
  have notin: "n \<notin> set (map col_name (collections s))"
    using assms by (simp add: select_collection_id_None)
  show ?thesis
    using assms notin by (simp add: call_step_def insert_collection_def Let_def)
qed

text \<open>
  C9 (as the code has it). The lookup and the insert are two steps with nothing atomic
  around them: two callers with the same new name can both find no row and both go on to
  insert. The column \<open>name\<close> is declared \<open>UNIQUE\<close> (line 66), so the later insert raises
  \<open>IntegrityError\<close> and adds no row: in the interleaving select, select, insert, insert
  the first caller returns the new id, the second raises, and one row is added. Under
  every schedule a registry with no name twice stays so.
\<close>

theorem racing_get_or_create_keeps_names_unique:
  assumes "distinct (map col_name (collections s))"
    and "select_collection_id n s = None"
  shows "distinct (map col_name
           (collections (snd (snd (run_schedule n sched (AtSelect, AtSelect, s))))))
       \<and> run_schedule n [True, False] (AtSelect, AtSelect, s) = (AtInsert, AtInsert, s)
       \<and> run_schedule n [True, False, True, False] (AtSelect, AtSelect, s) =
           (Returned (next_rowid (map col_id (collections s))), Raised IntegrityError,
            s\<lparr>collections := collections s @
                 [\<lparr>col_id = next_rowid (map col_id (collections s)), col_name = n\<rparr>]\<rparr>)"
proof -
  have "distinct (map col_name
      (collections (snd (snd (run_schedule n sched (AtSelect, AtSelect, s))))))"
    using run_schedule_names [of "(AtSelect, AtSelect, s)" n sched] assms(1) by simp
  moreover have "run_schedule n [True, False] (AtSelect, AtSelect, s) = (AtInsert, AtInsert, s)"
    using assms(2) by (simp add: call_step_def)
  ultimately show ?thesis
    using racing_schedule [OF assms(2)] by simp
qed

theorem racing_get_or_create_keeps_names_unique_witness:
  "distinct (map col_name (collections tie_store))
   \<and> select_collection_id ''newcol'' tie_store = None
   \<and> run_schedule ''newcol'' [True, False, True, False] (AtSelect, AtSelect, tie_store) =
       (Returned 2, Raised IntegrityError,
        tie_store\<lparr>collections := collections tie_store @
          [\<lparr>col_id = 2, col_name = ''newcol''\<rparr>]\<rparr>)"
proof -
  have a: "distinct (map col_name (collections tie_store))" by (simp add: tie_store_def)
  have b: "select_collection_id ''newcol'' tie_store = None"
    by (simp add: select_collection_id_def tie_store_def)
  have c: "next_rowid (map col_id (collections tie_store)) = 2"
    by (simp add: next_rowid_def tie_store_def)
  from racing_get_or_create_keeps_names_unique [OF a b, of "[]"] show ?thesis
    using a b by (simp add: c)
qed

text \<open>
  From the empty registry, whatever the schedule of two callers creating \<open>newcol\<close>, the
  table never holds two rows of that name.
\<close>

lemma no_schedule_duplicates_newcol:
  "\<forall>sched. length (filter (\<lambda>r. col_name r = ''newcol'')
       (collections (snd (snd (run_schedule ''newcol'' sched
          (AtSelect, AtSelect, empty_store)))))) \<le> 1"
proof
  fix sched
  let ?rows = "collections (snd (snd (run_schedule ''newcol'' sched
      (AtSelect, AtSelect, empty_store))))"
  have "distinct (map col_name ?rows)"
    using run_schedule_names [of "(AtSelect, AtSelect, empty_store)" "''newcol''" sched]
    by (simp add: empty_store_def)
  then show "length (filter (\<lambda>r. col_name r = ''newcol'') ?rows) \<le> 1"
    by (rule at_most_one_row)
qed

text \<open>
  The interleaving of the claim from the empty registry: both callers find no row, the
  first insert creates row 1, the second raises, and the table holds one row.
\<close>

theorem racing_inserts_one_row_counterexample:
  "run_schedule ''newcol'' [True, False, True, False] (AtSelect, AtSelect, empty_store) =
     (Returned 1, Raised IntegrityError,
      \<lparr>collections = [\<lparr>col_id = 1, col_name = ''newcol''\<rparr>], documents = []\<rparr>)"
  by (simp add: call_step_def select_collection_id_def insert_collection_def next_rowid_def
      empty_store_def)

end
